theory Spec2Isabelle
  imports Complex_Main
begin

section \<open>Numbers and errors\<close>

text \<open>
  The analyzer (\<^verbatim>\<open>tools/performance/bottleneck_analyzer.py\<close>) works on the numbers of a
  decoded JSON document and on numbers read from profiler text. They are modelled as exact
  rationals: rounding of binary floating point, NaN and the infinities are outside the model.
  What is kept is that Python's true division \<^verbatim>\<open>/\<close> raises \<^verbatim>\<open>ZeroDivisionError\<close>
  on a zero divisor, for integers and floats alike, and that \<^verbatim>\<open>min\<close> and \<^verbatim>\<open>max\<close>
  raise \<^verbatim>\<open>ValueError\<close> on an empty sequence.
\<close>

datatype py_error = ZeroDivisionError | ValueError

definition py_div :: "rat \<Rightarrow> rat \<Rightarrow> py_error + rat" where
  "py_div a b = (if b = 0 then Inl ZeroDivisionError else Inr (a / b))"



section \<open>Scalability analyzer\<close>

text \<open>
  One entry of a throughput series. The transaction and cross-shard series carry the keys
  \<^verbatim>\<open>tx_count\<close> and \<^verbatim>\<open>throughput_tps\<close>, the shard-creation series
  \<^verbatim>\<open>shard_count\<close> and \<^verbatim>\<open>throughput_sps\<close>; the three loops of the source differ
  in these key names only, so one record and one loop stand for the three.
\<close>

record throughput_item =
  item_count :: rat
  item_throughput :: rat

text \<open>
  One entry of the \<^verbatim>\<open>scalability\<close> list: \<^verbatim>\<open>tx_count_from\<close>, \<^verbatim>\<open>tx_count_to\<close>,
  \<^verbatim>\<open>tps_from\<close>, \<^verbatim>\<open>tps_to\<close>, \<^verbatim>\<open>efficiency\<close> (for shard creation
  \<^verbatim>\<open>shard_count_from\<close>, \<^verbatim>\<open>shard_count_to\<close>, \<^verbatim>\<open>sps_from\<close>, \<^verbatim>\<open>sps_to\<close>).
\<close>

record scalability_item =
  count_from :: rat
  count_to :: rat
  throughput_from :: rat
  throughput_to :: rat
  efficiency :: rat

text \<open>
  The dictionary built at the end of each analysis: \<^verbatim>\<open>data\<close>, \<^verbatim>\<open>scalability\<close>,
  \<^verbatim>\<open>min_tps\<close>, \<^verbatim>\<open>max_tps\<close>, \<^verbatim>\<open>avg_tps\<close> (\<^verbatim>\<open>..._sps\<close> for shard creation).
\<close>

record throughput_analysis =
  data :: "throughput_item list"
  scalability :: "scalability_item list"
  min_throughput :: rat
  max_throughput :: rat
  avg_throughput :: rat








record transaction_analysis =
  tx_throughput_analysis :: "throughput_analysis option"

record sharding_analysis =
  creation_analysis :: "throughput_analysis option"
  cross_shard_analysis :: "throughput_analysis option"









section \<open>Bottleneck detector\<close>

datatype bottleneck_type =
    transaction_scalability | shard_creation_scalability | cross_shard_scalability
  | cpu_hotspot | memory_leak | memory_hotspot

datatype severity_level = low | medium | high

text \<open>
  The description of a bottleneck is a formatted string. The model keeps which of the six
  templates is used and the values that are formatted into it, in the order of the
  template; the rendering of a number to text is outside the model.
\<close>

datatype description_text =
    transaction_text rat rat rat
  | shard_creation_text rat rat rat
  | cross_shard_text rat rat rat
  | cpu_hotspot_text rat string
  | memory_leak_text int rat
  | memory_hotspot_text string nat

text \<open>The six fixed recommendation strings, one for each bottleneck type.\<close>

datatype recommendation_text =
    transaction_advice | shard_creation_advice | cross_shard_advice
  | cpu_hotspot_advice | memory_leak_advice | memory_hotspot_advice

record bottleneck =
  btype :: bottleneck_type
  severity :: severity_level
  description :: description_text
  recommendation :: recommendation_text

text \<open>
  The profiles as the two parsers return them. Keys: \<^verbatim>\<open>overhead\<close>, \<^verbatim>\<open>function\<close>;
  \<^verbatim>\<open>hotspots\<close>; \<^verbatim>\<open>total_allocs\<close>, \<^verbatim>\<open>total_frees\<close>, \<^verbatim>\<open>total_bytes\<close>;
  \<^verbatim>\<open>bytes_lost\<close>, \<^verbatim>\<open>function\<close>; \<^verbatim>\<open>heap_summary\<close>, \<^verbatim>\<open>memory_hotspots\<close>.
  A key that may be missing is an \<open>option\<close>. The heap counters are read by \<^verbatim>\<open>int\<close>
  from text matched by \<^verbatim>\<open>[\d,]+\<close>, so they are natural numbers. The two
  \<^verbatim>\<open>function\<close> keys are the fields \<open>cpu_function\<close> and \<open>mem_function\<close>, the key
  \<^verbatim>\<open>heap_summary\<close> is the field \<open>mp_heap_summary\<close>.
\<close>

record cpu_hotspot_entry =
  overhead :: rat
  cpu_function :: string

record cpu_profile =
  hotspots :: "cpu_hotspot_entry list option"

record heap_summary =
  total_allocs :: "nat option"
  total_frees :: "nat option"
  total_bytes :: "nat option"

record memory_hotspot_entry =
  bytes_lost :: nat
  mem_function :: string

record memory_profile =
  mp_heap_summary :: "heap_summary option"
  memory_hotspots :: "memory_hotspot_entry list option"

text \<open>
  The argument \<^verbatim>\<open>analysis_results\<close>. An entry that is missing and an entry that is
  \<^verbatim>\<open>None\<close> fail the same test (\<^verbatim>\<open>k in d and d[k]\<close>), so both are \<open>None\<close> here.
  The keys are \<^verbatim>\<open>transaction_analysis\<close> and \<^verbatim>\<open>sharding_analysis\<close>.
\<close>

record analysis_results =
  ar_transaction_analysis :: "transaction_analysis option"
  ar_sharding_analysis :: "sharding_analysis option"

definition transaction_bottleneck :: "scalability_item \<Rightarrow> bottleneck" where
  "transaction_bottleneck item =
     \<lparr>btype = transaction_scalability,
      severity = (if efficiency item < 1 / 2 then high else medium),
      description = transaction_text (count_from item) (count_to item) (efficiency item),
      recommendation = transaction_advice\<rparr>"

definition shard_creation_bottleneck :: "scalability_item \<Rightarrow> bottleneck" where
  "shard_creation_bottleneck item =
     \<lparr>btype = shard_creation_scalability,
      severity = (if efficiency item < 1 / 2 then high else medium),
      description = shard_creation_text (count_from item) (count_to item) (efficiency item),
      recommendation = shard_creation_advice\<rparr>"

definition cross_shard_bottleneck :: "scalability_item \<Rightarrow> bottleneck" where
  "cross_shard_bottleneck item =
     \<lparr>btype = cross_shard_scalability,
      severity = (if efficiency item < 1 / 2 then high else medium),
      description = cross_shard_text (count_from item) (count_to item) (efficiency item),
      recommendation = cross_shard_advice\<rparr>"

text \<open>
  \<^verbatim>\<open>for item in throughput.get('scalability', []): if item['efficiency'] < (1.0 - threshold / 100): bottlenecks.append(...)\<close>.
  The three loops of the source differ in the dictionary they append.
\<close>

fun scalability_bottlenecks ::
  "(scalability_item \<Rightarrow> bottleneck) \<Rightarrow> rat \<Rightarrow> scalability_item list \<Rightarrow> bottleneck list
     \<Rightarrow> bottleneck list" where
  "scalability_bottlenecks mk threshold [] bottlenecks = bottlenecks"
| "scalability_bottlenecks mk threshold (item # items) bottlenecks =
     scalability_bottlenecks mk threshold items
       (if efficiency item < 1 - threshold / 100 then bottlenecks @ [mk item] else bottlenecks)"

definition cpu_bottleneck :: "cpu_hotspot_entry \<Rightarrow> bottleneck" where
  "cpu_bottleneck hotspot =
     \<lparr>btype = cpu_hotspot,
      severity = (if overhead hotspot > 30 then high
                  else (if overhead hotspot > 15 then medium else low)),
      description = cpu_hotspot_text (overhead hotspot) (cpu_function hotspot),
      recommendation = cpu_hotspot_advice\<rparr>"

text \<open>\<^verbatim>\<open>for hotspot in cpu_profile['hotspots'][:5]: if hotspot['overhead'] > threshold: ...\<close>\<close>

fun cpu_bottlenecks :: "rat \<Rightarrow> cpu_hotspot_entry list \<Rightarrow> bottleneck list \<Rightarrow> bottleneck list" where
  "cpu_bottlenecks threshold [] bottlenecks = bottlenecks"
| "cpu_bottlenecks threshold (hotspot # rest) bottlenecks =
     cpu_bottlenecks threshold rest
       (if overhead hotspot > threshold then bottlenecks @ [cpu_bottleneck hotspot]
        else bottlenecks)"

text \<open>
  The leak test. \<^verbatim>\<open>leak_count > 0 and leak_count / heap['total_allocs'] > threshold / 100\<close>
  divides only when the first conjunct holds; the description divides once more.
\<close>

definition memory_leak_check :: "rat \<Rightarrow> heap_summary \<Rightarrow> bottleneck list \<Rightarrow> py_error + bottleneck list" where
  "memory_leak_check threshold heap bottlenecks =
     (case (total_allocs heap, total_frees heap) of
        (Some allocs, Some frees) \<Rightarrow>
          (let leak_count = int allocs - int frees in
           if leak_count > 0 then
             (case py_div (of_int leak_count) (of_nat allocs) of
                Inl e \<Rightarrow> Inl e
              | Inr ratio \<Rightarrow>
                  if ratio > threshold / 100 then
                    (case py_div (of_int leak_count) (of_nat allocs) of
                       Inl e \<Rightarrow> Inl e
                     | Inr shown \<Rightarrow>
                         Inr (bottlenecks @
                           [\<lparr>btype = memory_leak, severity = high,
                             description = memory_leak_text leak_count (shown * 100),
                             recommendation = memory_leak_advice\<rparr>]))
                  else Inr bottlenecks)
           else Inr bottlenecks)
      | _ \<Rightarrow> Inr bottlenecks)"

definition memory_hotspot_bottleneck :: "memory_hotspot_entry \<Rightarrow> bottleneck" where
  "memory_hotspot_bottleneck hotspot =
     \<lparr>btype = memory_hotspot, severity = medium,
      description = memory_hotspot_text (mem_function hotspot) (bytes_lost hotspot),
      recommendation = memory_hotspot_advice\<rparr>"

text \<open>\<^verbatim>\<open>for hotspot in memory_profile['memory_hotspots'][:5]: bottlenecks.append(...)\<close>\<close>

fun memory_hotspot_bottlenecks :: "memory_hotspot_entry list \<Rightarrow> bottleneck list \<Rightarrow> bottleneck list" where
  "memory_hotspot_bottlenecks [] bottlenecks = bottlenecks"
| "memory_hotspot_bottlenecks (hotspot # rest) bottlenecks =
     memory_hotspot_bottlenecks rest (bottlenecks @ [memory_hotspot_bottleneck hotspot])"

text \<open>A dictionary is truthy when it has a key.\<close>

definition heap_truthy :: "heap_summary \<Rightarrow> bool" where
  "heap_truthy heap \<longleftrightarrow>
     total_allocs heap \<noteq> None \<or> total_frees heap \<noteq> None \<or> total_bytes heap \<noteq> None"

text \<open>
  \<^verbatim>\<open>identify_bottlenecks\<close>. The list \<^verbatim>\<open>bottlenecks\<close> is threaded through the blocks
  of the function in the order of the source: the transaction block, the sharding block
  (shard creation, then cross-shard), the CPU block and the memory block (leak, then
  memory hotspots). Only the memory block divides.
\<close>

definition transaction_step :: "rat \<Rightarrow> analysis_results \<Rightarrow> bottleneck list \<Rightarrow> bottleneck list" where
  "transaction_step threshold results bottlenecks =
     (case ar_transaction_analysis results of
        None \<Rightarrow> bottlenecks
      | Some tx_analysis \<Rightarrow>
          (case tx_throughput_analysis tx_analysis of
             None \<Rightarrow> bottlenecks
           | Some tp \<Rightarrow>
               scalability_bottlenecks transaction_bottleneck threshold
                 (scalability tp) bottlenecks))"

definition creation_step :: "rat \<Rightarrow> sharding_analysis \<Rightarrow> bottleneck list \<Rightarrow> bottleneck list" where
  "creation_step threshold shard_analysis bottlenecks =
     (case creation_analysis shard_analysis of
        None \<Rightarrow> bottlenecks
      | Some creation \<Rightarrow>
          scalability_bottlenecks shard_creation_bottleneck threshold
            (scalability creation) bottlenecks)"

definition cross_shard_step :: "rat \<Rightarrow> sharding_analysis \<Rightarrow> bottleneck list \<Rightarrow> bottleneck list" where
  "cross_shard_step threshold shard_analysis bottlenecks =
     (case cross_shard_analysis shard_analysis of
        None \<Rightarrow> bottlenecks
      | Some cross_shard \<Rightarrow>
          scalability_bottlenecks cross_shard_bottleneck threshold
            (scalability cross_shard) bottlenecks)"

definition sharding_step :: "rat \<Rightarrow> analysis_results \<Rightarrow> bottleneck list \<Rightarrow> bottleneck list" where
  "sharding_step threshold results bottlenecks =
     (case ar_sharding_analysis results of
        None \<Rightarrow> bottlenecks
      | Some shard_analysis \<Rightarrow>
          cross_shard_step threshold shard_analysis
            (creation_step threshold shard_analysis bottlenecks))"

definition cpu_step :: "rat \<Rightarrow> cpu_profile option \<Rightarrow> bottleneck list \<Rightarrow> bottleneck list" where
  "cpu_step threshold cpu bottlenecks =
     (case cpu of
        None \<Rightarrow> bottlenecks
      | Some profile \<Rightarrow>
          (case hotspots profile of
             None \<Rightarrow> bottlenecks
           | Some hs \<Rightarrow> cpu_bottlenecks threshold (take 5 hs) bottlenecks))"

definition leak_step :: "rat \<Rightarrow> memory_profile \<Rightarrow> bottleneck list \<Rightarrow> py_error + bottleneck list" where
  "leak_step threshold profile bottlenecks =
     (case mp_heap_summary profile of
        None \<Rightarrow> Inr bottlenecks
      | Some heap \<Rightarrow>
          if heap_truthy heap then memory_leak_check threshold heap bottlenecks
          else Inr bottlenecks)"

definition memory_hotspot_step :: "memory_profile \<Rightarrow> bottleneck list \<Rightarrow> bottleneck list" where
  "memory_hotspot_step profile bottlenecks =
     (case memory_hotspots profile of
        None \<Rightarrow> bottlenecks
      | Some hs \<Rightarrow> memory_hotspot_bottlenecks (take 5 hs) bottlenecks)"

definition memory_step :: "rat \<Rightarrow> memory_profile option \<Rightarrow> bottleneck list \<Rightarrow> py_error + bottleneck list" where
  "memory_step threshold memory bottlenecks =
     (case memory of
        None \<Rightarrow> Inr bottlenecks
      | Some profile \<Rightarrow>
          (case leak_step threshold profile bottlenecks of
             Inl e \<Rightarrow> Inl e
           | Inr found \<Rightarrow> Inr (memory_hotspot_step profile found)))"

definition identify_bottlenecks ::
  "analysis_results \<Rightarrow> cpu_profile option \<Rightarrow> memory_profile option \<Rightarrow> rat
     \<Rightarrow> py_error + bottleneck list" where
  "identify_bottlenecks results cpu memory threshold =
     memory_step threshold memory
       (cpu_step threshold cpu
         (sharding_step threshold results
           (transaction_step threshold results [])))"

text \<open>
  What each rule of the detector looks at: the scalability entries of a facet (none when
  the facet is absent), the first five hotspots of a profile (none when it is absent).
\<close>

definition transaction_items :: "analysis_results \<Rightarrow> scalability_item list" where
  "transaction_items results =
     (case ar_transaction_analysis results of
        None \<Rightarrow> []
      | Some a \<Rightarrow> (case tx_throughput_analysis a of None \<Rightarrow> [] | Some tp \<Rightarrow> scalability tp))"

definition creation_items :: "analysis_results \<Rightarrow> scalability_item list" where
  "creation_items results =
     (case ar_sharding_analysis results of
        None \<Rightarrow> []
      | Some a \<Rightarrow> (case creation_analysis a of None \<Rightarrow> [] | Some tp \<Rightarrow> scalability tp))"

definition cross_shard_items :: "analysis_results \<Rightarrow> scalability_item list" where
  "cross_shard_items results =
     (case ar_sharding_analysis results of
        None \<Rightarrow> []
      | Some a \<Rightarrow> (case cross_shard_analysis a of None \<Rightarrow> [] | Some tp \<Rightarrow> scalability tp))"

definition cpu_items :: "cpu_profile option \<Rightarrow> cpu_hotspot_entry list" where
  "cpu_items cpu =
     (case cpu of
        None \<Rightarrow> []
      | Some profile \<Rightarrow> (case hotspots profile of None \<Rightarrow> [] | Some hs \<Rightarrow> take 5 hs))"

definition memory_items :: "memory_profile option \<Rightarrow> memory_hotspot_entry list" where
  "memory_items memory =
     (case memory of
        None \<Rightarrow> []
      | Some profile \<Rightarrow> (case memory_hotspots profile of None \<Rightarrow> [] | Some hs \<Rightarrow> take 5 hs))"

text \<open>The finding of the leak rule for \<open>allocs\<close> allocations and \<open>frees\<close> frees.\<close>

definition leak_bottleneck :: "nat \<Rightarrow> nat \<Rightarrow> bottleneck" where
  "leak_bottleneck allocs frees =
     \<lparr>btype = memory_leak, severity = high,
      description = memory_leak_text (int allocs - int frees)
                      (of_int (int allocs - int frees) / of_nat allocs * 100),
      recommendation = memory_leak_advice\<rparr>"

definition leak_findings :: "rat \<Rightarrow> memory_profile option \<Rightarrow> bottleneck list" where
  "leak_findings threshold memory =
     (case memory of
        None \<Rightarrow> []
      | Some profile \<Rightarrow>
     (case mp_heap_summary profile of
        None \<Rightarrow> []
      | Some heap \<Rightarrow>
     (case (total_allocs heap, total_frees heap) of
        (Some allocs, Some frees) \<Rightarrow>
          if int allocs - int frees > 0
             \<and> of_int (int allocs - int frees) / of_nat allocs > threshold / 100
          then [leak_bottleneck allocs frees] else []
      | _ \<Rightarrow> [])))"

text \<open>The place of a bottleneck type in the order of the six rules.\<close>

fun rule_rank :: "bottleneck_type \<Rightarrow> nat" where
  "rule_rank transaction_scalability = 0"
| "rule_rank shard_creation_scalability = 1"
| "rule_rank cross_shard_scalability = 2"
| "rule_rank cpu_hotspot = 3"
| "rule_rank memory_leak = 4"
| "rule_rank memory_hotspot = 5"

definition eff_item :: "rat \<Rightarrow> scalability_item" where
  "eff_item e = \<lparr>count_from = 100, count_to = 200, throughput_from = 1000,
                 throughput_to = 2000 * e, efficiency = e\<rparr>"

definition eff_analysis :: "rat list \<Rightarrow> throughput_analysis" where
  "eff_analysis es = \<lparr>data = [], scalability = map eff_item es,
                      min_throughput = 0, max_throughput = 0, avg_throughput = 0\<rparr>"

definition three_facets :: analysis_results where
  "three_facets =
     \<lparr>ar_transaction_analysis =
        Some \<lparr>tx_throughput_analysis = Some (eff_analysis [4 / 10, 85 / 100, 95 / 100])\<rparr>,
      ar_sharding_analysis =
        Some \<lparr>creation_analysis = Some (eff_analysis [95 / 100, 4 / 10]),
              cross_shard_analysis = Some (eff_analysis [85 / 100])\<rparr>\<rparr>"

definition leaky_profile :: "nat \<Rightarrow> nat \<Rightarrow> memory_profile" where
  "leaky_profile allocs frees =
     \<lparr>mp_heap_summary = Some \<lparr>total_allocs = Some allocs, total_frees = Some frees,
                               total_bytes = Some 4096\<rparr>,
      memory_hotspots = Some [\<lparr>bytes_lost = 64, mem_function = ''Unknown''\<rparr>]\<rparr>"

definition six_hotspots :: cpu_profile where
  "six_hotspots = \<lparr>hotspots = Some
     [\<lparr>overhead = 20, cpu_function = ''a''\<rparr>, \<lparr>overhead = 40, cpu_function = ''b''\<rparr>,
      \<lparr>overhead = 5, cpu_function = ''c''\<rparr>, \<lparr>overhead = 12, cpu_function = ''d''\<rparr>,
      \<lparr>overhead = 31, cpu_function = ''e''\<rparr>, \<lparr>overhead = 99, cpu_function = ''f''\<rparr>]\<rparr>"

section \<open>Profile parsers\<close>

text \<open>
  The profile text is a \<open>string\<close>; a character is a code point below 256. On these,
  \<^verbatim>\<open>str.strip()\<close> and the pattern \<^verbatim>\<open>\s\<close> treat as white space the characters
  9 to 13, 28 to 32, 133 and 160, and \<^verbatim>\<open>\d\<close> matches the ten decimal digits.
\<close>

definition py_isspace :: "char \<Rightarrow> bool" where
  "py_isspace c \<longleftrightarrow>
     (of_char c :: nat) \<in> {9, 10, 11, 12, 13, 28, 29, 30, 31, 32, 133, 160}"

definition py_isdigit :: "char \<Rightarrow> bool" where
  "py_isdigit c \<longleftrightarrow> 48 \<le> (of_char c :: nat) \<and> (of_char c :: nat) \<le> 57"

text \<open>\<^verbatim>\<open>s.strip()\<close> and \<^verbatim>\<open>s.strip('%')\<close>.\<close>

definition strip :: "string \<Rightarrow> string" where
  "strip s = rev (dropWhile py_isspace (rev (dropWhile py_isspace s)))"

definition strip_chars :: "char \<Rightarrow> string \<Rightarrow> string" where
  "strip_chars x s = rev (dropWhile (\<lambda>c. c = x) (rev (dropWhile (\<lambda>c. c = x) s)))"

text \<open>
  \<^verbatim>\<open>re.split(r'\s+', s, maxsplit=n)\<close> for \<open>n > 0\<close>: the text before the first run of
  white space, then the split of what follows the run with one split fewer; after \<open>n\<close>
  splits the remainder is the last element, white space inside it included.
\<close>

fun re_split :: "nat \<Rightarrow> string \<Rightarrow> string list" where
  "re_split 0 s = [s]"
| "re_split (Suc n) s =
     (let pre = takeWhile (\<lambda>c. \<not> py_isspace c) s;
          rest = dropWhile (\<lambda>c. \<not> py_isspace c) s
      in if rest = [] then [pre] else pre # re_split n (dropWhile py_isspace rest))"

subsection \<open>CPU profile\<close>

text \<open>
  The body of \<^verbatim>\<open>for line in lines\<close> in \<^verbatim>\<open>parse_cpu_profile\<close>. \<open>None\<close> is a line that
  adds nothing: \<^verbatim>\<open>continue\<close>, fewer than five parts, or the \<^verbatim>\<open>ValueError\<close> of
  \<^verbatim>\<open>float\<close>, which is caught. The conversion \<^verbatim>\<open>float\<close> of the Python library is the
  parameter \<open>py_float\<close>, \<open>None\<close> standing for \<^verbatim>\<open>ValueError\<close>.
\<close>

definition parse_cpu_line :: "(string \<Rightarrow> rat option) \<Rightarrow> string \<Rightarrow> cpu_hotspot_entry option" where
  "parse_cpu_line py_float line =
     (if strip line = [] \<or> take 1 line = ''#'' then None
      else
        (let parts = re_split 5 (strip line) in
         if length parts \<ge> 5 then
           (case py_float (strip_chars (CHR ''%'') (parts ! 0)) of
              None \<Rightarrow> None
            | Some value \<Rightarrow> Some \<lparr>overhead = value, cpu_function = last parts\<rparr>)
         else None))"

fun parse_cpu_lines ::
  "(string \<Rightarrow> rat option) \<Rightarrow> string list \<Rightarrow> cpu_hotspot_entry list \<Rightarrow> cpu_hotspot_entry list"
where
  "parse_cpu_lines py_float [] found = found"
| "parse_cpu_lines py_float (line # lines) found =
     parse_cpu_lines py_float lines
       (case parse_cpu_line py_float line of None \<Rightarrow> found | Some h \<Rightarrow> found @ [h])"

text \<open>
  The white-space separated fields of a string (what \<^verbatim>\<open>s.split()\<close> returns): the
  maximal runs of characters that are not white space.
\<close>

function ws_fields :: "string \<Rightarrow> string list" where
  "ws_fields s =
     (let t = dropWhile py_isspace s in
      if t = [] then []
      else takeWhile (\<lambda>c. \<not> py_isspace c) t # ws_fields (dropWhile (\<lambda>c. \<not> py_isspace c) t))"
  by pat_completeness auto

termination
proof (relation "measure length")
  show "wf (measure length)" by simp
next
  fix s t :: string
  assume t: "t = dropWhile py_isspace s" and ne: "t \<noteq> []"
  from ne obtain c cs where c: "t = c # cs" by (cases t) auto
  have "dropWhile py_isspace s = c # cs" using t c by simp
  then have "\<not> py_isspace c" by (simp add: dropWhile_eq_Cons_conv)
  then have "dropWhile (\<lambda>c. \<not> py_isspace c) t = dropWhile (\<lambda>c. \<not> py_isspace c) cs"
    using c by simp
  then have "length (dropWhile (\<lambda>c. \<not> py_isspace c) t) \<le> length cs"
    by (simp add: length_dropWhile_le)
  also have "\<dots> < length t" using c by simp
  also have "\<dots> \<le> length s" using t by (simp add: length_dropWhile_le)
  finally show "(dropWhile (\<lambda>c. \<not> py_isspace c) t, s) \<in> measure length" by simp
qed

declare ws_fields.simps [simp del]

text \<open>
  A reader of unsigned decimal numerals (\<^verbatim>\<open>12\<close>, \<^verbatim>\<open>12.50\<close>), a part of what
  \<^verbatim>\<open>float\<close> accepts, for evaluating the parser on examples.
\<close>

definition digits_value :: "string \<Rightarrow> nat" where
  "digits_value ds = foldl (\<lambda>n c. 10 * n + (of_char c - 48)) 0 ds"

definition decimal_float :: "string \<Rightarrow> rat option" where
  "decimal_float s =
     (let ip = takeWhile py_isdigit s; r = dropWhile py_isdigit s in
      if ip = [] then None
      else if r = [] then Some (of_nat (digits_value ip))
      else if hd r = CHR ''.'' \<and> tl r \<noteq> [] \<and> list_all py_isdigit (tl r)
        then Some (of_nat (digits_value ip) + of_nat (digits_value (tl r)) / 10 ^ length (tl r))
      else None)"

definition seven_field_line :: string where
  "seven_field_line = ''10% a b c d e f''"

definition perf_line :: string where
  "perf_line = ''    12.50%  shardx  libc.so  [.]  memcpy''"

subsection \<open>Memory profile\<close>

text \<open>
  One match of the block pattern of \<^verbatim>\<open>parse_memory_profile\<close>, as \<^verbatim>\<open>re.finditer\<close>
  yields it: group 1, matched by \<^verbatim>\<open>[\d,]+\<close>, and group 2, the text of the call stack.
\<close>

record leak_block =
  bytes_text :: string
  stack_text :: string

text \<open>
  \<^verbatim>\<open>int\<close> on a string of decimal digits; the empty string raises \<^verbatim>\<open>ValueError\<close>
  (\<open>None\<close>). Group 1 with its commas removed holds nothing but digits. The limit some
  interpreter versions put on the number of digits is not modelled.
\<close>

definition int_of_digits :: "string \<Rightarrow> nat option" where
  "int_of_digits ds =
     (if ds \<noteq> [] \<and> list_all py_isdigit ds then Some (digits_value ds) else None)"

text \<open>
  The pieces of the frame pattern
  \<^verbatim>\<open>==\d+==\s+by\s+\d+:\s+(.*?)(?:\(|\n)\<close>. A literal, and a repetition \<^verbatim>\<open>+\<close> of a
  character class; each returns the text after what it matched. Up to the colon every
  repetition is followed by a character outside its class, so it can only match the
  whole run.
\<close>

definition lit :: "string \<Rightarrow> string \<Rightarrow> string option" where
  "lit l s = (if take (length l) s = l then Some (drop (length l) s) else None)"

definition many1 :: "(char \<Rightarrow> bool) \<Rightarrow> string \<Rightarrow> string option" where
  "many1 P s = (if takeWhile P s = [] then None else Some (dropWhile P s))"

definition frame_head :: "string \<Rightarrow> string option" where
  "frame_head s =
     Option.bind (lit ''=='' s) (\<lambda>s.
     Option.bind (many1 py_isdigit s) (\<lambda>s.
     Option.bind (lit ''=='' s) (\<lambda>s.
     Option.bind (many1 py_isspace s) (\<lambda>s.
     Option.bind (lit ''by'' s) (\<lambda>s.
     Option.bind (many1 py_isspace s) (\<lambda>s.
     Option.bind (many1 py_isdigit s) (\<lambda>s.
     lit '':'' s)))))))"

text \<open>
  \<^verbatim>\<open>(.*?)(?:\(|\n)\<close>: the shortest text without a line feed that is followed by an
  opening parenthesis or a line feed, that is, the text up to the first of these.
\<close>

definition lazy_capture :: "string \<Rightarrow> string option" where
  "lazy_capture s =
     (let g = takeWhile (\<lambda>c. c \<noteq> CHR ''('' \<and> c \<noteq> CHR 0x0A) s in
      if length g < length s then Some g else None)"

text \<open>
  \<^verbatim>\<open>\s+\<close> before the group is greedy and gives back one character at a time: the first
  \<open>k\<close> characters of the run \<open>w\<close> are white space for the pattern, the others and the
  text \<open>t\<close> after the run are left to the group.
\<close>

fun give_back :: "nat \<Rightarrow> string \<Rightarrow> string \<Rightarrow> string option" where
  "give_back 0 w t = None"
| "give_back (Suc k) w t =
     (case lazy_capture (drop (Suc k) w @ t) of
        Some g \<Rightarrow> Some g
      | None \<Rightarrow> give_back k w t)"

definition frame_at :: "string \<Rightarrow> string option" where
  "frame_at s =
     Option.bind (frame_head s) (\<lambda>s.
       give_back (length (takeWhile py_isspace s)) (takeWhile py_isspace s)
         (dropWhile py_isspace s))"

text \<open>\<^verbatim>\<open>re.search\<close>: the match at the leftmost position that has one; its group 1.\<close>

fun frame_search :: "string \<Rightarrow> string option" where
  "frame_search [] = frame_at []"
| "frame_search (c # cs) =
     (case frame_at (c # cs) of Some g \<Rightarrow> Some g | None \<Rightarrow> frame_search cs)"

text \<open>
  The body of \<^verbatim>\<open>for block in re.finditer(...)\<close>. \<open>None\<close> is the \<^verbatim>\<open>ValueError\<close> of
  \<^verbatim>\<open>int\<close>, caught by \<^verbatim>\<open>continue\<close>.
\<close>

definition hotspot_of_block :: "leak_block \<Rightarrow> memory_hotspot_entry option" where
  "hotspot_of_block block =
     (case int_of_digits (filter (\<lambda>c. c \<noteq> CHR '','') (bytes_text block)) of
        None \<Rightarrow> None
      | Some lost \<Rightarrow>
          (let allocation_stack = strip (stack_text block);
               function_match = frame_search allocation_stack
           in Some \<lparr>bytes_lost = lost,
                    mem_function = (case function_match of
                                      Some g \<Rightarrow> strip g
                                    | None \<Rightarrow> ''Unknown'')\<rparr>))"



definition decimal_block :: leak_block where
  "decimal_block = \<lparr>bytes_text = ''48'',
     stack_text = ''==77==    by 12: load_shard (shard.c:40)'' @ [CHR 0x0A]
                @ ''==77==    by 13: main (main.c:9)'' @ [CHR 0x0A]\<rparr>"

section \<open>Properties of the scalability analyzer\<close>






















lemma scalability_bottlenecks_append:
  "scalability_bottlenecks mk threshold items acc =
     acc @ map mk (filter (\<lambda>item. efficiency item < 1 - threshold / 100) items)"
  by (induction items arbitrary: acc) simp_all

lemma cpu_bottlenecks_append:
  "cpu_bottlenecks threshold hs acc =
     acc @ map cpu_bottleneck (filter (\<lambda>h. overhead h > threshold) hs)"
  by (induction hs arbitrary: acc) simp_all

lemma memory_hotspot_bottlenecks_append:
  "memory_hotspot_bottlenecks hs acc = acc @ map memory_hotspot_bottleneck hs"
  by (induction hs arbitrary: acc) simp_all

lemma memory_leak_check_append:
  "memory_leak_check threshold heap acc =
     Inr (acc @ leak_findings threshold
                  (Some \<lparr>mp_heap_summary = Some heap, memory_hotspots = hs\<rparr>))"
proof (cases "total_allocs heap")
  case None
  then show ?thesis by (simp add: memory_leak_check_def leak_findings_def)
next
  case (Some allocs)
  note a = Some
  show ?thesis
  proof (cases "total_frees heap")
    case None
    then show ?thesis using a by (simp add: memory_leak_check_def leak_findings_def)
  next
    case (Some frees)
    show ?thesis
    proof (cases "int allocs - int frees > 0")
      case False
      then show ?thesis using a Some
        by (simp add: memory_leak_check_def leak_findings_def)
    next
      case True
      then have "allocs \<noteq> 0" by auto
      then have nz: "(of_nat allocs :: rat) \<noteq> 0" by simp
      show ?thesis using a Some True nz
        by (simp add: memory_leak_check_def leak_findings_def py_div_def leak_bottleneck_def
              Let_def del: of_nat_eq_0_iff)
    qed
  qed
qed

lemma leak_findings_not_truthy:
  "\<not> heap_truthy heap \<Longrightarrow>
     leak_findings threshold (Some \<lparr>mp_heap_summary = Some heap, memory_hotspots = hs\<rparr>) = []"
  by (simp add: heap_truthy_def leak_findings_def)

lemma transaction_step_append:
  "transaction_step threshold results acc =
     acc @ map transaction_bottleneck
             (filter (\<lambda>item. efficiency item < 1 - threshold / 100) (transaction_items results))"
  by (simp add: transaction_step_def transaction_items_def scalability_bottlenecks_append
        split: option.splits)

lemma sharding_step_append:
  "sharding_step threshold results acc =
     acc @ map shard_creation_bottleneck
             (filter (\<lambda>item. efficiency item < 1 - threshold / 100) (creation_items results))
         @ map cross_shard_bottleneck
             (filter (\<lambda>item. efficiency item < 1 - threshold / 100) (cross_shard_items results))"
  by (simp add: sharding_step_def creation_step_def cross_shard_step_def creation_items_def
        cross_shard_items_def scalability_bottlenecks_append split: option.splits)

lemma cpu_step_append:
  "cpu_step threshold cpu acc =
     acc @ map cpu_bottleneck (filter (\<lambda>h. overhead h > threshold) (cpu_items cpu))"
  by (simp add: cpu_step_def cpu_items_def cpu_bottlenecks_append split: option.splits)

lemma leak_step_append:
  "leak_step threshold profile acc = Inr (acc @ leak_findings threshold (Some profile))"
proof -
  obtain hp hs where p: "profile = \<lparr>mp_heap_summary = hp, memory_hotspots = hs\<rparr>"
    by (cases profile) auto
  show ?thesis
  proof (cases hp)
    case None
    then show ?thesis using p by (simp add: leak_step_def leak_findings_def)
  next
    case (Some heap)
    then show ?thesis using p
      by (cases "heap_truthy heap")
         (simp_all add: leak_step_def memory_leak_check_append[where hs = hs]
            leak_findings_not_truthy)
  qed
qed

lemma memory_step_append:
  "memory_step threshold memory acc =
     Inr (acc @ leak_findings threshold memory
              @ map memory_hotspot_bottleneck (memory_items memory))"
proof (cases memory)
  case None
  then show ?thesis by (simp add: memory_step_def leak_findings_def memory_items_def)
next
  case (Some profile)
  then show ?thesis
    by (simp add: memory_step_def leak_step_append memory_hotspot_step_def memory_items_def
          memory_hotspot_bottlenecks_append split: option.splits)
qed

lemma identify_bottlenecks_parts:
  "identify_bottlenecks results cpu memory threshold =
     Inr (map transaction_bottleneck
            (filter (\<lambda>item. efficiency item < 1 - threshold / 100) (transaction_items results))
        @ map shard_creation_bottleneck
            (filter (\<lambda>item. efficiency item < 1 - threshold / 100) (creation_items results))
        @ map cross_shard_bottleneck
            (filter (\<lambda>item. efficiency item < 1 - threshold / 100) (cross_shard_items results))
        @ map cpu_bottleneck (filter (\<lambda>h. overhead h > threshold) (cpu_items cpu))
        @ leak_findings threshold memory
        @ map memory_hotspot_bottleneck (memory_items memory))"
  by (simp add: identify_bottlenecks_def memory_step_append cpu_step_append
        sharding_step_append transaction_step_append)

section \<open>Properties of the bottleneck detector\<close>

lemma btype_simps [simp]:
  "btype (transaction_bottleneck i) = transaction_scalability"
  "btype (shard_creation_bottleneck i) = shard_creation_scalability"
  "btype (cross_shard_bottleneck i) = cross_shard_scalability"
  "btype (cpu_bottleneck h) = cpu_hotspot"
  "btype (leak_bottleneck a f) = memory_leak"
  "btype (memory_hotspot_bottleneck m) = memory_hotspot"
  by (simp_all add: transaction_bottleneck_def shard_creation_bottleneck_def
        cross_shard_bottleneck_def cpu_bottleneck_def leak_bottleneck_def
        memory_hotspot_bottleneck_def)

lemma filter_btype_map:
  assumes "\<And>x. btype (mk x) = t'"
  shows "filter (\<lambda>b. btype b = t) (map mk xs) = (if t' = t then map mk xs else [])"
  using assms by (induction xs) auto

lemma leak_findings_cases:
  "leak_findings threshold memory = [] \<or>
   (\<exists>a f. leak_findings threshold memory = [leak_bottleneck a f])"
  by (auto simp: leak_findings_def split: option.splits)

lemma filter_btype_leak:
  "filter (\<lambda>b. btype b = t) (leak_findings threshold memory) =
     (if t = memory_leak then leak_findings threshold memory else [])"
  using leak_findings_cases[of threshold memory] by auto

lemmas filter_parts =
  filter_btype_map[of transaction_bottleneck, OF btype_simps(1)]
  filter_btype_map[of shard_creation_bottleneck, OF btype_simps(2)]
  filter_btype_map[of cross_shard_bottleneck, OF btype_simps(3)]
  filter_btype_map[of cpu_bottleneck, OF btype_simps(4)]
  filter_btype_map[of memory_hotspot_bottleneck, OF btype_simps(6)]
  filter_btype_leak




lemma filter_cpu:
  "identify_bottlenecks results cpu memory threshold = Inr bs \<Longrightarrow>
   filter (\<lambda>b. btype b = cpu_hotspot) bs =
     map cpu_bottleneck (filter (\<lambda>h. overhead h > threshold) (cpu_items cpu))"
  by (auto simp: identify_bottlenecks_parts filter_parts)


lemma filter_memory_hotspot:
  "identify_bottlenecks results cpu memory threshold = Inr bs \<Longrightarrow>
   filter (\<lambda>b. btype b = memory_hotspot) bs =
     map memory_hotspot_bottleneck (memory_items memory)"
  by (auto simp: identify_bottlenecks_parts filter_parts)

lemma identify_bottlenecks_total:
  "\<exists>bs. identify_bottlenecks results cpu memory threshold = Inr bs"
  by (simp add: identify_bottlenecks_parts)





text \<open>
  Claim C5. When the CPU profile has its hotspot list, the \<open>cpu_hotspot\<close> bottlenecks of
  the result are, in the order of the profile, one for each of the first five hotspots
  whose overhead is \<open>> threshold\<close>; the result is the same as for the profile cut to its
  first five hotspots, so a later hotspot never produces a bottleneck and nothing is
  sorted by overhead. The severity is \<open>high\<close> for an overhead \<open>> 30\<close>, \<open>medium\<close> for
  \<open>15 < overhead \<le> 30\<close> and \<open>low\<close> otherwise.
\<close>

theorem cpu_hotspot_rule:
  "\<exists>bs. identify_bottlenecks results cpu memory threshold = Inr bs
     \<and> (\<forall>profile hs. cpu = Some profile \<and> hotspots profile = Some hs \<longrightarrow>
           filter (\<lambda>b. btype b = cpu_hotspot) bs =
             map cpu_bottleneck (filter (\<lambda>h. overhead h > threshold) (take 5 hs))
         \<and> identify_bottlenecks results (Some \<lparr>hotspots = Some (take 5 hs)\<rparr>) memory threshold
             = Inr bs)
     \<and> (\<forall>h. btype (cpu_bottleneck h) = cpu_hotspot
           \<and> description (cpu_bottleneck h) = cpu_hotspot_text (overhead h) (cpu_function h)
           \<and> (overhead h > 30 \<longrightarrow> severity (cpu_bottleneck h) = high)
           \<and> (15 < overhead h \<and> overhead h \<le> 30 \<longrightarrow> severity (cpu_bottleneck h) = medium)
           \<and> (overhead h \<le> 15 \<longrightarrow> severity (cpu_bottleneck h) = low))"
proof -
  obtain bs where r: "identify_bottlenecks results cpu memory threshold = Inr bs"
    using identify_bottlenecks_total by blast
  have a: "\<forall>profile hs. cpu = Some profile \<and> hotspots profile = Some hs \<longrightarrow>
           filter (\<lambda>b. btype b = cpu_hotspot) bs =
             map cpu_bottleneck (filter (\<lambda>h. overhead h > threshold) (take 5 hs))
         \<and> identify_bottlenecks results (Some \<lparr>hotspots = Some (take 5 hs)\<rparr>) memory threshold
             = Inr bs"
  proof (intro allI impI)
    fix profile hs
    assume c: "cpu = Some profile \<and> hotspots profile = Some hs"
    then have i: "cpu_items cpu = take 5 hs" by (simp add: cpu_items_def)
    have j: "cpu_items (Some \<lparr>hotspots = Some (take 5 hs)\<rparr>) = take 5 hs"
      by (simp add: cpu_items_def)
    show "filter (\<lambda>b. btype b = cpu_hotspot) bs =
             map cpu_bottleneck (filter (\<lambda>h. overhead h > threshold) (take 5 hs))
         \<and> identify_bottlenecks results (Some \<lparr>hotspots = Some (take 5 hs)\<rparr>) memory threshold
             = Inr bs"
      using filter_cpu[OF r] r unfolding identify_bottlenecks_parts i j by simp
  qed
  have b: "\<forall>h. btype (cpu_bottleneck h) = cpu_hotspot
           \<and> description (cpu_bottleneck h) = cpu_hotspot_text (overhead h) (cpu_function h)
           \<and> (overhead h > 30 \<longrightarrow> severity (cpu_bottleneck h) = high)
           \<and> (15 < overhead h \<and> overhead h \<le> 30 \<longrightarrow> severity (cpu_bottleneck h) = medium)
           \<and> (overhead h \<le> 15 \<longrightarrow> severity (cpu_bottleneck h) = low)"
    by (simp add: cpu_bottleneck_def)
  from r a b show ?thesis by blast
qed

text \<open>
  Six hotspots with overheads \<open>20, 40, 5, 12, 31, 99\<close> and threshold \<open>10\<close>: the findings
  are \<open>20, 40, 12, 31\<close> in this order; \<open>5\<close> is below the threshold and \<open>99\<close>, the
  largest, is the sixth.
\<close>

theorem cpu_hotspot_rule_witness:
  "\<exists>bs. identify_bottlenecks three_facets (Some six_hotspots) None 10 = Inr bs
     \<and> map (\<lambda>b. (severity b, description b)) (filter (\<lambda>b. btype b = cpu_hotspot) bs) =
         [(medium, cpu_hotspot_text 20 ''a''), (high, cpu_hotspot_text 40 ''b''),
          (low, cpu_hotspot_text 12 ''d''), (high, cpu_hotspot_text 31 ''e'')]"
proof -
  from cpu_hotspot_rule[of three_facets "Some six_hotspots" None 10]
  obtain bs where r: "identify_bottlenecks three_facets (Some six_hotspots) None 10 = Inr bs"
    and a: "\<forall>profile hs. Some six_hotspots = Some profile \<and> hotspots profile = Some hs \<longrightarrow>
           filter (\<lambda>b. btype b = cpu_hotspot) bs =
             map cpu_bottleneck (filter (\<lambda>h. overhead h > 10) (take 5 hs))
         \<and> identify_bottlenecks three_facets (Some \<lparr>hotspots = Some (take 5 hs)\<rparr>) None 10
             = Inr bs"
    by blast
  have "map (\<lambda>b. (severity b, description b)) (filter (\<lambda>b. btype b = cpu_hotspot) bs) =
         [(medium, cpu_hotspot_text 20 ''a''), (high, cpu_hotspot_text 40 ''b''),
          (low, cpu_hotspot_text 12 ''d''), (high, cpu_hotspot_text 31 ''e'')]"
    using a[rule_format, of six_hotspots "the (hotspots six_hotspots)"]
    by (simp add: six_hotspots_def cpu_bottleneck_def)
  with r show ?thesis by (intro exI[of _ bs] conjI)
qed

lemma rank_leak_findings:
  "b \<in> set (leak_findings threshold memory) \<Longrightarrow> btype b = memory_leak"
  using leak_findings_cases[of threshold memory] by auto

lemma sorted_map_const:
  fixes f :: "'a \<Rightarrow> nat"
  assumes "\<And>x. x \<in> set xs \<Longrightarrow> f x = c"
  shows "sorted (map f xs)"
  using assms by (induction xs) auto

lemma sorted_rank_maps:
  "sorted (map ((\<lambda>b. rule_rank (btype b)) \<circ> transaction_bottleneck) xs)"
  "sorted (map ((\<lambda>b. rule_rank (btype b)) \<circ> shard_creation_bottleneck) xs)"
  "sorted (map ((\<lambda>b. rule_rank (btype b)) \<circ> cross_shard_bottleneck) xs)"
  "sorted (map ((\<lambda>b. rule_rank (btype b)) \<circ> cpu_bottleneck) hs)"
  "sorted (map ((\<lambda>b. rule_rank (btype b)) \<circ> memory_hotspot_bottleneck) ms)"
  "sorted (map (\<lambda>b. rule_rank (btype b)) (leak_findings threshold memory))"
proof -
  show "sorted (map ((\<lambda>b. rule_rank (btype b)) \<circ> transaction_bottleneck) xs)"
    by (rule sorted_map_const[where c = 0]) simp
  show "sorted (map ((\<lambda>b. rule_rank (btype b)) \<circ> shard_creation_bottleneck) xs)"
    by (rule sorted_map_const[where c = 1]) simp
  show "sorted (map ((\<lambda>b. rule_rank (btype b)) \<circ> cross_shard_bottleneck) xs)"
    by (rule sorted_map_const[where c = 2]) simp
  show "sorted (map ((\<lambda>b. rule_rank (btype b)) \<circ> cpu_bottleneck) hs)"
    by (rule sorted_map_const[where c = 3]) simp
  show "sorted (map ((\<lambda>b. rule_rank (btype b)) \<circ> memory_hotspot_bottleneck) ms)"
    by (rule sorted_map_const[where c = 5]) simp
  show "sorted (map (\<lambda>b. rule_rank (btype b)) (leak_findings threshold memory))"
    by (rule sorted_map_const[where c = 4]) (simp add: rank_leak_findings)
qed

lemma sorted_parts:
  "sorted (map (\<lambda>b. rule_rank (btype b))
     (map transaction_bottleneck xs @ map shard_creation_bottleneck ys
      @ map cross_shard_bottleneck zs @ map cpu_bottleneck hs
      @ leak_findings threshold memory @ map memory_hotspot_bottleneck ms))"
  by (auto simp: sorted_append sorted_rank_maps rank_leak_findings)

text \<open>
  Claim C7. For every combination of present and absent facets and profiles the detector
  returns a list (no error), and the list is the findings of the transaction rule, then of
  the shard-creation, cross-shard, CPU-hotspot, memory-leak and memory-hotspot rules: each
  rule contributes all its findings whatever the other rules find, and the types of the
  list are in the order of the rules. An absent facet or profile contributes nothing. With
  both profiles absent the list holds the scalability findings only.
\<close>

theorem rule_order:
  "(\<exists>bs. identify_bottlenecks results cpu memory threshold = Inr bs
      \<and> bs = map transaction_bottleneck
               (filter (\<lambda>item. efficiency item < 1 - threshold / 100) (transaction_items results))
           @ map shard_creation_bottleneck
               (filter (\<lambda>item. efficiency item < 1 - threshold / 100) (creation_items results))
           @ map cross_shard_bottleneck
               (filter (\<lambda>item. efficiency item < 1 - threshold / 100) (cross_shard_items results))
           @ map cpu_bottleneck (filter (\<lambda>h. overhead h > threshold) (cpu_items cpu))
           @ leak_findings threshold memory
           @ map memory_hotspot_bottleneck (memory_items memory)
      \<and> sorted (map (\<lambda>b. rule_rank (btype b)) bs))
   \<and> (\<exists>bs. identify_bottlenecks results None None threshold = Inr bs
      \<and> bs = map transaction_bottleneck
               (filter (\<lambda>item. efficiency item < 1 - threshold / 100) (transaction_items results))
           @ map shard_creation_bottleneck
               (filter (\<lambda>item. efficiency item < 1 - threshold / 100) (creation_items results))
           @ map cross_shard_bottleneck
               (filter (\<lambda>item. efficiency item < 1 - threshold / 100) (cross_shard_items results))
      \<and> (\<forall>b \<in> set bs. btype b \<noteq> cpu_hotspot \<and> btype b \<noteq> memory_leak
            \<and> btype b \<noteq> memory_hotspot))
   \<and> (ar_transaction_analysis results = None \<longrightarrow> transaction_items results = [])
   \<and> (ar_sharding_analysis results = None \<longrightarrow>
         creation_items results = [] \<and> cross_shard_items results = [])
   \<and> (cpu = None \<longrightarrow> cpu_items cpu = [])
   \<and> (memory = None \<longrightarrow> leak_findings threshold memory = [] \<and> memory_items memory = [])"
proof -
  have a: "\<exists>bs. identify_bottlenecks results cpu memory threshold = Inr bs
      \<and> bs = map transaction_bottleneck
               (filter (\<lambda>item. efficiency item < 1 - threshold / 100) (transaction_items results))
           @ map shard_creation_bottleneck
               (filter (\<lambda>item. efficiency item < 1 - threshold / 100) (creation_items results))
           @ map cross_shard_bottleneck
               (filter (\<lambda>item. efficiency item < 1 - threshold / 100) (cross_shard_items results))
           @ map cpu_bottleneck (filter (\<lambda>h. overhead h > threshold) (cpu_items cpu))
           @ leak_findings threshold memory
           @ map memory_hotspot_bottleneck (memory_items memory)
      \<and> sorted (map (\<lambda>b. rule_rank (btype b)) bs)"
    using sorted_parts by (simp only: identify_bottlenecks_parts sum.inject simp_thms ex_simps)
  have e: "cpu_items None = []" "leak_findings threshold None = []" "memory_items None = []"
    by (simp_all add: cpu_items_def leak_findings_def memory_items_def)
  have b: "\<exists>bs. identify_bottlenecks results None None threshold = Inr bs
      \<and> bs = map transaction_bottleneck
               (filter (\<lambda>item. efficiency item < 1 - threshold / 100) (transaction_items results))
           @ map shard_creation_bottleneck
               (filter (\<lambda>item. efficiency item < 1 - threshold / 100) (creation_items results))
           @ map cross_shard_bottleneck
               (filter (\<lambda>item. efficiency item < 1 - threshold / 100) (cross_shard_items results))
      \<and> (\<forall>b \<in> set bs. btype b \<noteq> cpu_hotspot \<and> btype b \<noteq> memory_leak
            \<and> btype b \<noteq> memory_hotspot)"
    by (auto simp: identify_bottlenecks_parts e)
  have c: "ar_transaction_analysis results = None \<longrightarrow> transaction_items results = []"
    "ar_sharding_analysis results = None \<longrightarrow>
         creation_items results = [] \<and> cross_shard_items results = []"
    "cpu = None \<longrightarrow> cpu_items cpu = []"
    "memory = None \<longrightarrow> leak_findings threshold memory = [] \<and> memory_items memory = []"
    by (simp_all add: transaction_items_def creation_items_def cross_shard_items_def e)
  from a b c show ?thesis by (intro conjI)
qed

text \<open>
  All six rules firing on one input, in order; and the same analysis with both profiles
  absent.
\<close>

theorem rule_order_witness:
  "(\<exists>bs. identify_bottlenecks three_facets (Some six_hotspots) (Some (leaky_profile 1000 700)) 10
          = Inr bs
     \<and> map btype bs =
         [transaction_scalability, transaction_scalability, shard_creation_scalability,
          cross_shard_scalability, cpu_hotspot, cpu_hotspot, cpu_hotspot, cpu_hotspot,
          memory_leak, memory_hotspot])
   \<and> (\<exists>bs. identify_bottlenecks three_facets None None 10 = Inr bs
     \<and> map btype bs =
         [transaction_scalability, transaction_scalability, shard_creation_scalability,
          cross_shard_scalability])"
proof -
  note t = rule_order[of three_facets "Some six_hotspots" "Some (leaky_profile 1000 700)" 10]
  have i: "transaction_items three_facets = map eff_item [4 / 10, 85 / 100, 95 / 100]"
    "creation_items three_facets = map eff_item [95 / 100, 4 / 10]"
    "cross_shard_items three_facets = map eff_item [85 / 100]"
    by (simp_all add: transaction_items_def creation_items_def cross_shard_items_def
          three_facets_def eff_analysis_def)
  have j: "cpu_items (Some six_hotspots) = take 5 (the (hotspots six_hotspots))"
    "memory_items (Some (leaky_profile 1000 700)) = [\<lparr>bytes_lost = 64, mem_function = ''Unknown''\<rparr>]"
    "leak_findings 10 (Some (leaky_profile 1000 700)) = [leak_bottleneck 1000 700]"
    by (simp_all add: cpu_items_def six_hotspots_def memory_items_def leaky_profile_def
          leak_findings_def)
  have "\<exists>bs. identify_bottlenecks three_facets (Some six_hotspots) (Some (leaky_profile 1000 700)) 10
          = Inr bs
     \<and> map btype bs =
         [transaction_scalability, transaction_scalability, shard_creation_scalability,
          cross_shard_scalability, cpu_hotspot, cpu_hotspot, cpu_hotspot, cpu_hotspot,
          memory_leak, memory_hotspot]"
    using t[THEN conjunct1] unfolding i j
    by (auto simp: eff_item_def six_hotspots_def)
  moreover have "\<exists>bs. identify_bottlenecks three_facets None None 10 = Inr bs
     \<and> map btype bs =
         [transaction_scalability, transaction_scalability, shard_creation_scalability,
          cross_shard_scalability]"
    using t[THEN conjunct2, THEN conjunct1] unfolding i
    by (auto simp: eff_item_def)
  ultimately show ?thesis by (rule conjI)
qed

section \<open>Properties of the profile parsers\<close>

lemma ws_fields_Nil [simp]: "ws_fields [] = []"
  by (simp add: ws_fields.simps)

lemma ws_fields_dropWhile [simp]: "ws_fields (dropWhile py_isspace s) = ws_fields s"
  by (subst (1 2) ws_fields.simps) simp

lemma ws_fields_start:
  assumes "s \<noteq> []" "\<not> py_isspace (hd s)"
  shows "ws_fields s = takeWhile (\<lambda>c. \<not> py_isspace c) s # ws_fields (dropWhile (\<lambda>c. \<not> py_isspace c) s)"
proof -
  have "dropWhile py_isspace s = s" using assms by (cases s) auto
  then show ?thesis using assms by (subst ws_fields.simps) simp
qed

lemma ws_fields_all_space:
  assumes "list_all py_isspace ws"
  shows "ws_fields ws = []"
proof -
  have "dropWhile py_isspace ws = []" using assms by (simp add: list_all_iff)
  then show ?thesis by (subst ws_fields.simps) simp
qed

lemma ws_fields_append_space:
  assumes "list_all py_isspace ws"
  shows "ws_fields (s @ ws) = ws_fields s"
proof (induction s rule: ws_fields.induct)
  case (1 s)
  let ?t = "dropWhile py_isspace s"
  show ?case
  proof (cases "?t = []")
    case True
    then have "list_all py_isspace (s @ ws)" using assms by (auto simp: list_all_iff)
    then have "ws_fields (s @ ws) = []" by (rule ws_fields_all_space)
    moreover have "ws_fields s = []" using True by (subst ws_fields.simps) simp
    ultimately show ?thesis by simp
  next
    case False
    then obtain c cs where t: "?t = c # cs" by (cases ?t) auto
    then have c: "\<not> py_isspace c" by (simp add: dropWhile_eq_Cons_conv)
    have ex: "\<exists>x\<in>set s. \<not> py_isspace x" using False by auto
    from ex obtain x where x: "x \<in> set s" "\<not> py_isspace x" by blast
    have d: "dropWhile py_isspace (s @ ws) = ?t @ ws"
      using x by (rule dropWhile_append1)
    have hd1: "?t @ ws \<noteq> []" "\<not> py_isspace (hd (?t @ ws))" using t c by simp_all
    have hd2: "?t \<noteq> []" "\<not> py_isspace (hd ?t)" using t c by simp_all
    have f1: "ws_fields (s @ ws) = ws_fields (?t @ ws)"
      using ws_fields_dropWhile[of "s @ ws"] d by simp
    have f2: "ws_fields s = ws_fields ?t" by simp
    let ?N = "\<lambda>c. \<not> py_isspace c"
    show ?thesis
    proof (cases "\<exists>x\<in>set ?t. py_isspace x")
      case True
      then obtain y where y: "y \<in> set ?t" "\<not> ?N y" by blast
      have "takeWhile ?N (?t @ ws) = takeWhile ?N ?t"
        using y by (rule takeWhile_append1)
      moreover have "dropWhile ?N (?t @ ws) = dropWhile ?N ?t @ ws"
        using y by (rule dropWhile_append1)
      ultimately show ?thesis
        unfolding f1 f2 ws_fields_start[OF hd1] ws_fields_start[OF hd2]
        using "1.IH"[OF refl False] by simp
    next
      case no: False
      then have tk: "takeWhile ?N ?t = ?t" "dropWhile ?N ?t = []" by auto
      have tw: "takeWhile ?N ws = []" "dropWhile ?N ws = ws"
        using assms by (cases ws; simp)+
      have all: "\<And>x. x \<in> set ?t \<Longrightarrow> ?N x" using no by blast
      have "takeWhile ?N (?t @ ws) = ?t @ takeWhile ?N ws"
        using all by (rule takeWhile_append2)
      moreover have "dropWhile ?N (?t @ ws) = dropWhile ?N ws"
        using all by (rule dropWhile_append2)
      ultimately have "takeWhile ?N (?t @ ws) = ?t" "dropWhile ?N (?t @ ws) = ws"
        using tw by simp_all
      then show ?thesis
        unfolding f1 f2 ws_fields_start[OF hd1] ws_fields_start[OF hd2] tk
        using ws_fields_all_space[OF assms] by simp
    qed
  qed
qed

lemma ws_fields_strip [simp]: "ws_fields (strip s) = ws_fields s"
proof -
  let ?t = "dropWhile py_isspace s"
  have "?t = rev (dropWhile py_isspace (rev ?t)) @ rev (takeWhile py_isspace (rev ?t))"
    by (metis rev_append rev_rev_ident takeWhile_dropWhile_id)
  moreover have sp: "list_all py_isspace (rev (takeWhile py_isspace (rev ?t)))"
    unfolding list_all_iff using set_takeWhileD[of _ py_isspace "rev ?t"] by auto
  ultimately have "ws_fields ?t = ws_fields (rev (dropWhile py_isspace (rev ?t)))"
    using ws_fields_append_space[OF sp, of "rev (dropWhile py_isspace (rev ?t))"] by simp
  then show ?thesis by (simp add: strip_def)
qed

lemma strip_trimmed:
  assumes "strip s \<noteq> []"
  shows "\<not> py_isspace (hd (strip s))" and "\<not> py_isspace (last (strip s))"
proof -
  let ?t = "dropWhile py_isspace s"
  let ?u = "dropWhile py_isspace (rev ?t)"
  have u: "?u \<noteq> []" using assms by (simp add: strip_def)
  then have "\<not> py_isspace (hd ?u)" by (rule hd_dropWhile)
  then show "\<not> py_isspace (last (strip s))"
    using u by (simp add: strip_def last_rev)
  have tne: "?t \<noteq> []"
  proof
    assume a: "?t = []"
    have "?u = []" unfolding a by simp
    with u show False by simp
  qed
  then have ht: "\<not> py_isspace (hd ?t)" by (rule hd_dropWhile)
  obtain c cs where t: "?t = c # cs" using tne by (cases ?t) auto
  have "rev ?t = takeWhile py_isspace (rev ?t) @ ?u" by simp
  then have "?t = rev ?u @ rev (takeWhile py_isspace (rev ?t))"
    by (metis rev_append rev_rev_ident)
  moreover have "rev ?u \<noteq> []" using u by simp
  ultimately have "hd (rev ?u) = hd ?t" by (metis hd_append2)
  then show "\<not> py_isspace (hd (strip s))" using ht by (simp add: strip_def)
qed

lemma ws_fields_single:
  assumes "r \<noteq> []" "\<not> py_isspace (hd r)" "\<not> py_isspace (last r)" "length (ws_fields r) \<le> 1"
  shows "ws_fields r = [r]"
proof -
  let ?N = "\<lambda>c. \<not> py_isspace c"
  have f: "ws_fields r = takeWhile ?N r # ws_fields (dropWhile ?N r)"
    using assms(1,2) by (rule ws_fields_start)
  then have e: "ws_fields (dropWhile ?N r) = []" using assms(4) by simp
  have "dropWhile ?N r = []"
  proof (rule ccontr)
    assume ne: "dropWhile ?N r \<noteq> []"
    let ?d = "dropWhile ?N r"
    have "last ?d = last r" using ne by (metis last_appendR takeWhile_dropWhile_id)
    then have "\<exists>x\<in>set ?d. \<not> py_isspace x" using assms(3) ne by (metis last_in_set)
    then have d2: "dropWhile py_isspace ?d \<noteq> []" by auto
    have "ws_fields ?d \<noteq> []" using d2 by (subst ws_fields.simps) (simp add: Let_def)
    then show False using e by simp
  qed
  then have "takeWhile ?N r = r" by (metis append_Nil2 takeWhile_dropWhile_id)
  then show ?thesis using f e by simp
qed

lemma ws_fields_nonempty:
  assumes "r \<noteq> []" "\<not> py_isspace (hd r)"
  shows "ws_fields r \<noteq> []"
  using ws_fields_start[OF assms] by simp

lemma last_dropWhile:
  assumes "dropWhile P xs \<noteq> []"
  shows "last (dropWhile P xs) = last xs"
  using last_appendR[OF assms, of "takeWhile P xs"] by simp

lemma dropWhile_has_last:
  assumes "dropWhile P xs \<noteq> []" "\<not> Q (last xs)"
  shows "\<exists>x\<in>set (dropWhile P xs). \<not> Q x"
proof -
  have "last (dropWhile P xs) \<in> set (dropWhile P xs)" using assms(1) by (rule last_in_set)
  then show ?thesis using assms last_dropWhile[OF assms(1)] by auto
qed

lemma takeWhile_whole:
  assumes "dropWhile P xs = []"
  shows "takeWhile P xs = xs"
  using takeWhile_dropWhile_id[of P xs] unfolding assms by simp

lemma re_split_step:
  assumes "dropWhile (\<lambda>c. \<not> py_isspace c) s \<noteq> []"
  shows "re_split (Suc n) s =
           takeWhile (\<lambda>c. \<not> py_isspace c) s
             # re_split n (dropWhile py_isspace (dropWhile (\<lambda>c. \<not> py_isspace c) s))"
  using assms by (simp add: Let_def del: dropWhile_eq_Nil_conv)

lemma re_split_last:
  assumes "dropWhile (\<lambda>c. \<not> py_isspace c) s = []"
  shows "re_split (Suc n) s = [s]"
  using assms takeWhile_whole[OF assms] by (simp add: Let_def del: dropWhile_eq_Nil_conv)

lemma re_split_fields:
  assumes "s \<noteq> []" "\<not> py_isspace (hd s)" "\<not> py_isspace (last s)"
  shows "\<exists>r pre. re_split n s = take (min n (length (ws_fields s) - 1)) (ws_fields s) @ [r]
            \<and> s = pre @ r \<and> r \<noteq> [] \<and> \<not> py_isspace (hd r) \<and> \<not> py_isspace (last r)
            \<and> ws_fields r = drop (min n (length (ws_fields s) - 1)) (ws_fields s)"
  using assms
proof (induction n arbitrary: s)
  case 0
  have "re_split 0 s = take (min 0 (length (ws_fields s) - 1)) (ws_fields s) @ [s]" by simp
  moreover have "s = [] @ s" by simp
  moreover have "ws_fields s = drop (min 0 (length (ws_fields s) - 1)) (ws_fields s)" by simp
  ultimately show ?case using "0.prems" by blast
next
  case (Suc n)
  let ?N = "\<lambda>c. \<not> py_isspace c"
  let ?pre = "takeWhile ?N s" and ?rest = "dropWhile ?N s"
  have f: "ws_fields s = ?pre # ws_fields ?rest" using Suc.prems(1,2) by (rule ws_fields_start)
  show ?case
  proof (cases "?rest = []")
    case True
    have p: "?pre = s" using True by (rule takeWhile_whole)
    have fs: "ws_fields s = [s]" unfolding f p True by simp
    have "re_split (Suc n) s = take (min (Suc n) (length (ws_fields s) - 1)) (ws_fields s) @ [s]"
      unfolding re_split_last[OF True] fs by simp
    moreover have "s = [] @ s" by simp
    moreover have "ws_fields s = drop (min (Suc n) (length (ws_fields s) - 1)) (ws_fields s)"
      unfolding fs by simp
    ultimately show ?thesis using Suc.prems by blast
  next
    case False
    let ?s' = "dropWhile py_isspace ?rest"
    have lr: "last ?rest = last s" using False by (rule last_dropWhile)
    have "\<exists>x\<in>set ?rest. \<not> py_isspace x"
      using False Suc.prems(3) by (rule dropWhile_has_last)
    then have ne': "?s' \<noteq> []" by simp
    then have hd': "\<not> py_isspace (hd ?s')" by (rule hd_dropWhile)
    have "last ?s' = last ?rest" using ne' by (rule last_dropWhile)
    then have last': "\<not> py_isspace (last ?s')" using lr Suc.prems(3) by simp
    from Suc.IH[OF ne' hd' last'] obtain r pre where
      ih: "re_split n ?s' = take (min n (length (ws_fields ?s') - 1)) (ws_fields ?s') @ [r]"
      and sp: "?s' = pre @ r" and r: "r \<noteq> []" "\<not> py_isspace (hd r)" "\<not> py_isspace (last r)"
      and fr: "ws_fields r = drop (min n (length (ws_fields ?s') - 1)) (ws_fields ?s')"
      by blast
    have f2: "ws_fields s = ?pre # ws_fields ?s'" unfolding f by simp
    have len': "length (ws_fields ?s') \<ge> 1"
      using ws_fields_nonempty[OF ne' hd'] by (cases "ws_fields ?s'") simp_all
    have m: "min (Suc n) (length (ws_fields s) - 1) = Suc (min n (length (ws_fields ?s') - 1))"
      unfolding f2 using len' by simp
    let ?k = "min n (length (ws_fields ?s') - 1)"
    have a: "re_split (Suc n) s =
               take (min (Suc n) (length (ws_fields s) - 1)) (ws_fields s) @ [r]"
    proof -
      have "re_split (Suc n) s = ?pre # (take ?k (ws_fields ?s') @ [r])"
        by (simp only: re_split_step[OF False] ih)
      also have "\<dots> = take (Suc ?k) (?pre # ws_fields ?s') @ [r]"
        by (simp only: take_Suc_Cons append_Cons)
      also have "\<dots> = take (min (Suc n) (length (ws_fields s) - 1)) (ws_fields s) @ [r]"
        by (simp only: m[symmetric] f2[symmetric])
      finally show ?thesis .
    qed
    have b: "ws_fields r = drop (min (Suc n) (length (ws_fields s) - 1)) (ws_fields s)"
    proof -
      have "drop (min (Suc n) (length (ws_fields s) - 1)) (ws_fields s)
              = drop (Suc ?k) (?pre # ws_fields ?s')"
        by (simp only: m f2[symmetric])
      also have "\<dots> = drop ?k (ws_fields ?s')" by (simp only: drop_Suc_Cons)
      finally show ?thesis using fr by simp
    qed
    have "s = ?pre @ ?rest" by simp
    also have "?rest = takeWhile py_isspace ?rest @ ?s'" by simp
    also have "?s' = pre @ r" by (rule sp)
    finally have s: "s = (?pre @ takeWhile py_isspace ?rest @ pre) @ r" by simp
    show ?thesis
      by (rule exI[of _ r], rule exI[of _ "?pre @ takeWhile py_isspace ?rest @ pre"])
         (intro conjI a s r b)
  qed
qed

lemma strip_empty_iff: "strip s = [] \<longleftrightarrow> list_all py_isspace s"
proof
  assume "list_all py_isspace s"
  then have d: "dropWhile py_isspace s = []" by (simp add: list_all_iff)
  show "strip s = []" unfolding strip_def d by simp
next
  assume e: "strip s = []"
  show "list_all py_isspace s"
  proof (rule ccontr)
    assume "\<not> list_all py_isspace s"
    then have ne: "dropWhile py_isspace s \<noteq> []" by (simp add: list_all_iff)
    let ?t = "dropWhile py_isspace s"
    have "\<not> py_isspace (hd ?t)" using ne by (rule hd_dropWhile)
    moreover have "hd ?t \<in> set (rev ?t)" using ne by simp
    ultimately have "dropWhile py_isspace (rev ?t) \<noteq> []" by auto
    then show False using e by (simp add: strip_def)
  qed
qed

lemma drop_to_last:
  assumes "xs \<noteq> []"
  shows "drop (length xs - 1) xs = [last xs]"
  using assms by (induction xs rule: rev_induct) simp_all

lemma parts_of_line:
  assumes "strip line \<noteq> []"
  shows "\<exists>r pre. re_split 5 (strip line) =
              take (min 5 (length (ws_fields line) - 1)) (ws_fields line) @ [r]
          \<and> strip line = pre @ r \<and> r \<noteq> [] \<and> \<not> py_isspace (hd r) \<and> \<not> py_isspace (last r)
          \<and> ws_fields r = drop (min 5 (length (ws_fields line) - 1)) (ws_fields line)"
  using re_split_fields[OF assms strip_trimmed[OF assms], of 5] by simp

lemma parts_length:
  assumes "strip line \<noteq> []"
  shows "length (re_split 5 (strip line)) = min 6 (length (ws_fields line))"
proof -
  from parts_of_line[OF assms] obtain r where
    p: "re_split 5 (strip line) = take (min 5 (length (ws_fields line) - 1)) (ws_fields line) @ [r]"
    by blast
  have "ws_fields (strip line) \<noteq> []"
    using ws_fields_nonempty[OF assms strip_trimmed(1)[OF assms]] .
  then have "length (ws_fields line) \<ge> 1" by (cases "ws_fields line") simp_all
  then show ?thesis unfolding p by auto
qed

lemma parts_first:
  assumes "strip line \<noteq> []" "2 \<le> length (ws_fields line)"
  shows "re_split 5 (strip line) ! 0 = hd (ws_fields line)"
proof -
  from parts_of_line[OF assms(1)] obtain r where
    p: "re_split 5 (strip line) = take (min 5 (length (ws_fields line) - 1)) (ws_fields line) @ [r]"
    by blast
  obtain a b rest where f: "ws_fields line = a # b # rest"
    using assms(2) by (cases "ws_fields line"; cases "tl (ws_fields line)") auto
  show ?thesis unfolding p f by (simp add: min_def)
qed

lemma parts_last_short:
  assumes "strip line \<noteq> []" "length (ws_fields line) \<le> 6"
  shows "last (re_split 5 (strip line)) = last (ws_fields line)"
proof -
  from parts_of_line[OF assms(1)] obtain r pre where
    p: "re_split 5 (strip line) = take (min 5 (length (ws_fields line) - 1)) (ws_fields line) @ [r]"
    and r: "r \<noteq> []" "\<not> py_isspace (hd r)" "\<not> py_isspace (last r)"
    and fr: "ws_fields r = drop (min 5 (length (ws_fields line) - 1)) (ws_fields line)"
    by blast
  have ne: "ws_fields line \<noteq> []"
    using ws_fields_nonempty[OF assms(1) strip_trimmed(1)[OF assms(1)]] by simp
  have m: "min 5 (length (ws_fields line) - 1) = length (ws_fields line) - 1"
    using assms(2) by simp
  have "length (ws_fields r) \<le> 1" unfolding fr m using ne by simp
  then have "ws_fields r = [r]" using r by (intro ws_fields_single)
  then have "[r] = drop (length (ws_fields line) - 1) (ws_fields line)" using fr m by simp
  also have "\<dots> = [last (ws_fields line)]"
    using ne by (rule drop_to_last)
  finally have "r = last (ws_fields line)" by simp
  then show ?thesis unfolding p by simp
qed

lemma parts_last_long:
  assumes "strip line \<noteq> []" "6 \<le> length (ws_fields line)"
  shows "ws_fields (last (re_split 5 (strip line))) = drop 5 (ws_fields line)"
    and "\<exists>pre. strip line = pre @ last (re_split 5 (strip line))"
proof -
  from parts_of_line[OF assms(1)] obtain r pre where
    p: "re_split 5 (strip line) = take (min 5 (length (ws_fields line) - 1)) (ws_fields line) @ [r]"
    and s: "strip line = pre @ r"
    and fr: "ws_fields r = drop (min 5 (length (ws_fields line) - 1)) (ws_fields line)"
    by blast
  have m: "min 5 (length (ws_fields line) - 1) = 5" using assms(2) by simp
  have l: "last (re_split 5 (strip line)) = r" unfolding p by simp
  show "ws_fields (last (re_split 5 (strip line))) = drop 5 (ws_fields line)"
    unfolding l fr m ..
  show "\<exists>pre. strip line = pre @ last (re_split 5 (strip line))"
    unfolding l using s by blast
qed

lemma ws_fields_blank:
  assumes "strip line = []"
  shows "ws_fields line = []"
  using assms ws_fields_all_space by (simp add: strip_empty_iff)

lemma parse_cpu_line_iff:
  "parse_cpu_line py_float line = Some h \<longleftrightarrow>
     strip line \<noteq> [] \<and> take 1 line \<noteq> ''#'' \<and> 5 \<le> length (ws_fields line)
     \<and> py_float (strip_chars (CHR ''%'') (hd (ws_fields line))) = Some (overhead h)
     \<and> cpu_function h = last (re_split 5 (strip line))"
proof (cases "strip line = [] \<or> take 1 line = ''#''")
  case True
  then show ?thesis by (auto simp: parse_cpu_line_def)
next
  case False
  then have ne: "strip line \<noteq> []" and nh: "take 1 line \<noteq> ''#''" by simp_all
  show ?thesis
  proof (cases "5 \<le> length (ws_fields line)")
    case short: False
    then have "\<not> 5 \<le> length (re_split 5 (strip line))"
      unfolding parts_length[OF ne] by simp
    then show ?thesis using short False by (simp add: parse_cpu_line_def Let_def)
  next
    case True
    then have l: "5 \<le> length (re_split 5 (strip line))"
      unfolding parts_length[OF ne] by simp
    have first: "re_split 5 (strip line) ! 0 = hd (ws_fields line)"
      using True by (intro parts_first[OF ne]) simp
    show ?thesis
      using False True l first
      by (cases h) (auto simp: parse_cpu_line_def Let_def split: option.splits)
  qed
qed

lemma parse_cpu_lines_append:
  "parse_cpu_lines py_float lines found = found @ List.map_filter (parse_cpu_line py_float) lines"
  by (induction lines arbitrary: found) (simp_all add: List.map_filter_simps split: option.splits)

text \<open>
  Claim C10 says that the function name of a hotspot is the last white-space separated
  field of the line. The split stops after five separators: on a line with seven fields
  the function name is the rest of the line from the sixth field on, \<open>e f\<close> here, and
  not the last field \<open>f\<close>.
\<close>

theorem cpu_function_is_not_last_field:
  "parse_cpu_line decimal_float seven_field_line = Some \<lparr>overhead = 10, cpu_function = ''e f''\<rparr>
   \<and> ws_fields seven_field_line = [''10%'', ''a'', ''b'', ''c'', ''d'', ''e'', ''f'']
   \<and> last (ws_fields seven_field_line) = ''f''"
  by code_simp

text \<open>
  Claim C10, as the code has it. A line of the overhead table gives a hotspot exactly when
  it is not blank, does not start with \<open>#\<close>, has at least five white-space separated
  fields, and its first field, with \<open>%\<close> stripped from both ends, is accepted by
  \<^verbatim>\<open>float\<close>; the overhead is that number. The function name is the last element of the
  split with at most five separators: the last field when the line has five or six
  fields, and the end of the line from the sixth field on, inner white space kept, when
  it has more. A line with fewer than five fields gives no hotspot whatever its first
  field, a blank line and a line starting with \<open>#\<close> are skipped, and the hotspots are
  collected in the order of the lines.
\<close>

theorem cpu_line_rule:
  "(parse_cpu_line py_float line = Some h \<longleftrightarrow>
      \<not> list_all py_isspace line \<and> take 1 line \<noteq> ''#'' \<and> 5 \<le> length (ws_fields line)
      \<and> py_float (strip_chars (CHR ''%'') (hd (ws_fields line))) = Some (overhead h)
      \<and> cpu_function h = last (re_split 5 (strip line)))
   \<and> (length (ws_fields line) = 5 \<or> length (ws_fields line) = 6 \<longrightarrow>
        last (re_split 5 (strip line)) = last (ws_fields line))
   \<and> (6 \<le> length (ws_fields line) \<longrightarrow>
        ws_fields (last (re_split 5 (strip line))) = drop 5 (ws_fields line)
        \<and> (\<exists>pre. strip line = pre @ last (re_split 5 (strip line))))
   \<and> (length (ws_fields line) < 5 \<longrightarrow> parse_cpu_line py_float line = None)
   \<and> (list_all py_isspace line \<or> take 1 line = ''#'' \<longrightarrow> parse_cpu_line py_float line = None)
   \<and> parse_cpu_lines py_float lines [] = List.map_filter (parse_cpu_line py_float) lines"
proof -
  have a: "parse_cpu_line py_float line = Some h \<longleftrightarrow>
      \<not> list_all py_isspace line \<and> take 1 line \<noteq> ''#'' \<and> 5 \<le> length (ws_fields line)
      \<and> py_float (strip_chars (CHR ''%'') (hd (ws_fields line))) = Some (overhead h)
      \<and> cpu_function h = last (re_split 5 (strip line))"
    unfolding parse_cpu_line_iff strip_empty_iff ..
  have ne: "strip line \<noteq> []" if "ws_fields line \<noteq> []"
    using that ws_fields_blank by blast
  have b: "length (ws_fields line) = 5 \<or> length (ws_fields line) = 6 \<longrightarrow>
        last (re_split 5 (strip line)) = last (ws_fields line)"
  proof
    assume l: "length (ws_fields line) = 5 \<or> length (ws_fields line) = 6"
    then have "ws_fields line \<noteq> []" by auto
    then show "last (re_split 5 (strip line)) = last (ws_fields line)"
      using l by (intro parts_last_short ne) auto
  qed
  have c: "6 \<le> length (ws_fields line) \<longrightarrow>
        ws_fields (last (re_split 5 (strip line))) = drop 5 (ws_fields line)
        \<and> (\<exists>pre. strip line = pre @ last (re_split 5 (strip line)))"
  proof
    assume l: "6 \<le> length (ws_fields line)"
    then have "ws_fields line \<noteq> []" by auto
    then have "strip line \<noteq> []" by (rule ne)
    then show "ws_fields (last (re_split 5 (strip line))) = drop 5 (ws_fields line)
        \<and> (\<exists>pre. strip line = pre @ last (re_split 5 (strip line)))"
      using parts_last_long[OF _ l] by blast
  qed
  have d: "length (ws_fields line) < 5 \<longrightarrow> parse_cpu_line py_float line = None"
  proof
    assume "length (ws_fields line) < 5"
    then have "\<And>h. parse_cpu_line py_float line \<noteq> Some h"
      unfolding parse_cpu_line_iff by simp
    then show "parse_cpu_line py_float line = None" by (cases "parse_cpu_line py_float line") auto
  qed
  have e: "list_all py_isspace line \<or> take 1 line = ''#'' \<longrightarrow> parse_cpu_line py_float line = None"
    by (auto simp: parse_cpu_line_def strip_empty_iff)
  have f: "parse_cpu_lines py_float lines [] = List.map_filter (parse_cpu_line py_float) lines"
    by (simp add: parse_cpu_lines_append)
  from a b c d e f show ?thesis by (intro conjI)
qed

text \<open>
  A line of a profiler report with five fields; the seven-field line; a line with three
  fields that begins with a valid percentage.
\<close>

theorem cpu_line_rule_witness:
  "parse_cpu_line decimal_float perf_line = Some \<lparr>overhead = 25 / 2, cpu_function = ''memcpy''\<rparr>
   \<and> length (ws_fields perf_line) = 5
   \<and> last (re_split 5 (strip perf_line)) = last (ws_fields perf_line)
   \<and> ws_fields (last (re_split 5 (strip seven_field_line))) = [''e'', ''f'']
   \<and> parse_cpu_line decimal_float ''12.50%  shardx  libc.so'' = None"
proof -
  let ?h = "\<lparr>overhead = 25 / 2, cpu_function = ''memcpy''\<rparr>"
  note t = cpu_line_rule[of decimal_float perf_line ?h]
  note u = cpu_line_rule[of decimal_float seven_field_line]
  note v = cpu_line_rule[of decimal_float "''12.50%  shardx  libc.so''"]
  have l: "length (ws_fields perf_line) = 5" by code_simp
  have h1: "\<not> list_all py_isspace perf_line" by code_simp
  have h2: "take 1 perf_line \<noteq> ''#''" by code_simp
  have h3: "decimal_float (strip_chars (CHR ''%'') (hd (ws_fields perf_line))) = Some (overhead ?h)"
    by code_simp
  have h4: "cpu_function ?h = last (re_split 5 (strip perf_line))" by code_simp
  have p: "parse_cpu_line decimal_float perf_line = Some ?h"
    using t[THEN conjunct1] h1 h2 h3 h4 l by simp
  have q: "last (re_split 5 (strip perf_line)) = last (ws_fields perf_line)"
    using t[THEN conjunct2, THEN conjunct1] l by simp
  have l7: "length (ws_fields seven_field_line) = 7" by code_simp
  have d7: "drop 5 (ws_fields seven_field_line) = [''e'', ''f'']" by code_simp
  have r: "ws_fields (last (re_split 5 (strip seven_field_line))) = [''e'', ''f'']"
    using u[THEN conjunct2, THEN conjunct2, THEN conjunct1] l7 d7 by simp
  have l3: "length (ws_fields ''12.50%  shardx  libc.so'') = 3" by code_simp
  have s: "parse_cpu_line decimal_float ''12.50%  shardx  libc.so'' = None"
    using v[THEN conjunct2, THEN conjunct2, THEN conjunct2, THEN conjunct1] l3 by simp
  from p l q r s show ?thesis by (intro conjI)
qed


lemma frame_search_decimal:
  "hotspot_of_block decimal_block = Some \<lparr>bytes_lost = 48, mem_function = ''load_shard''\<rparr>"
  by code_simp



end
